theory Spec2Isabelle
  imports Main
begin

section \<open>C++ types, as far as the header inspects them\<close>

text \<open>
  The header \<^verbatim>\<open>include/zdm/lock_wrapper.hpp\<close> decides at compile time, from the
  \<^emph>\<open>type\<close> of the callable handed to \<^verbatim>\<open>with_lock\<close>, which of its two overloads
  runs.  The types it can tell apart are modelled by \<open>cpp_type\<close>:
  \<^item> \<open>Fundamental n\<close>: a cv-unqualified non-class object type (\<^verbatim>\<open>int\<close>), or \<^verbatim>\<open>void\<close>;
  \<^item> \<open>Class n ops\<close>: a cv-unqualified class type together with the declarations of
    \<^verbatim>\<open>operator()\<close> it has (a closure type has exactly one);
  \<^item> \<open>TypeParameter n\<close>: a template parameter in the signature of a templated call
    operator (the \<^verbatim>\<open>auto\<close> of a generic lambda);
  \<^item> \<open>Const t\<close>, \<open>LvalueRef t\<close>, \<open>RvalueRef t\<close>, \<open>Pointer t\<close>: \<^verbatim>\<open>const T\<close>, \<^verbatim>\<open>T &\<close>,
    \<^verbatim>\<open>T &&\<close>, \<^verbatim>\<open>T *\<close>;
  \<^item> \<open>Function r args nx\<close>: the function type \<^verbatim>\<open>R(Args...)\<close>, with \<^verbatim>\<open>noexcept\<close> when
    \<open>nx\<close> (part of the type since C++17);
  \<^item> \<open>MemberFunctionPointer c r args cnst nx\<close>: \<^verbatim>\<open>R (C::*)(Args...)\<close>, with \<^verbatim>\<open>const\<close>
    when \<open>cnst\<close> and \<^verbatim>\<open>noexcept\<close> when \<open>nx\<close>.
  Volatile, ref-qualified, static and C-variadic call signatures are outside the model.
\<close>

datatype cpp_type =
    Fundamental string
  | Class string "call_operator list"
  | TypeParameter string
  | Const cpp_type
  | LvalueRef cpp_type
  | RvalueRef cpp_type
  | Pointer cpp_type
  | Function cpp_type "cpp_type list" bool
  | MemberFunctionPointer string cpp_type "cpp_type list" bool bool
and call_operator =
    CallOperator (is_template: bool) (is_const: bool) (is_noexcept: bool)
                 (return_type: cpp_type) (arg_types: "cpp_type list")

text \<open>\<^verbatim>\<open>T &\<close> for a type \<open>T\<close> that may itself be a reference (reference collapsing).\<close>

fun add_lvalue_reference :: "cpp_type \<Rightarrow> cpp_type" where
  "add_lvalue_reference (LvalueRef t) = LvalueRef t"
| "add_lvalue_reference (RvalueRef t) = LvalueRef t"
| "add_lvalue_reference t = LvalueRef t"

text \<open>
  \<^verbatim>\<open>const T\<close>: a qualifier added through a template parameter is ignored on a
  reference and on a function type, and is idempotent.
\<close>

fun add_const :: "cpp_type \<Rightarrow> cpp_type" where
  "add_const (Const t) = Const t"
| "add_const (LvalueRef t) = LvalueRef t"
| "add_const (RvalueRef t) = RvalueRef t"
| "add_const (Function r args nx) = Function r args nx"
| "add_const t = Const t"

text \<open>
  \<^verbatim>\<open>std::is_void_v\<close>, used by the \<^verbatim>\<open>if constexpr\<close> of \<^verbatim>\<open>with_lock\<close>.
\<close>

definition is_void :: "cpp_type \<Rightarrow> bool" where
  "is_void t = (t = Fundamental ''void'' \<or> t = Const (Fundamental ''void''))"

section \<open>\<^verbatim>\<open>zdm::detail::function_traits\<close> (lines 33--62)\<close>

text \<open>
  The primary template is only declared; the four partial specialisations are for
  \<^verbatim>\<open>R (&)(Args...)\<close>, \<^verbatim>\<open>R (*)(Args...)\<close>, \<^verbatim>\<open>R(Args...)\<close> and
  \<^verbatim>\<open>R (Class::*)(Args...) const\<close>.  For every other type the member types do not
  exist (\<open>None\<close>): a substitution failure where a concept names them.
\<close>

fun function_traits :: "cpp_type \<Rightarrow> (cpp_type \<times> cpp_type list) option" where
  "function_traits (LvalueRef (Function r args False)) = Some (r, args)"
| "function_traits (Pointer (Function r args False)) = Some (r, args)"
| "function_traits (Function r args False) = Some (r, args)"
| "function_traits (MemberFunctionPointer c r args True False) = Some (r, args)"
| "function_traits _ = None"

text \<open>
  \<^verbatim>\<open>decltype( &AFunction::operator() )\<close>: well-formed only when \<open>AFunction\<close> is a class
  type, const-qualified or not (and not a reference to one), with exactly one call
  operator that is not a template; an overload set or a template has no single
  address.  The qualifier of \<open>AFunction\<close> is no part of the member's type.
\<close>

fun address_of_call_operator :: "cpp_type \<Rightarrow> cpp_type option" where
  "address_of_call_operator (Class n [CallOperator tmpl cnst nx r args]) =
     (if tmpl then None else Some (MemberFunctionPointer n r args cnst nx))"
| "address_of_call_operator (Const (Class n [CallOperator tmpl cnst nx r args])) =
     (if tmpl then None else Some (MemberFunctionPointer n r args cnst nx))"
| "address_of_call_operator _ = None"

section \<open>The concepts of \<^verbatim>\<open>zdm::concepts\<close> (lines 77--119)\<close>

text \<open>
  One disjunct of either concept: \<^verbatim>\<open>tuple_size_v<arg_types> == 1\<close>, then
  \<^verbatim>\<open>same_as<tuple_element_t<0, arg_types>, P>\<close>.  The requirements are checked in
  lexical order and checking stops at the first that fails, so element 0 is only
  looked at in a tuple of size 1.
\<close>

definition single_parameter_is :: "(cpp_type \<times> cpp_type list) option \<Rightarrow> cpp_type \<Rightarrow> bool" where
  "single_parameter_is traits P =
     (case traits of
        None \<Rightarrow> False
      | Some (r, args) \<Rightarrow> (if length args = 1 then args ! 0 = P else False))"

definition call_operator_traits :: "cpp_type \<Rightarrow> (cpp_type \<times> cpp_type list) option" where
  "call_operator_traits AFunction =
     (case address_of_call_operator AFunction of
        None \<Rightarrow> None
      | Some pmf \<Rightarrow> function_traits pmf)"

definition unary_reference_function :: "cpp_type \<Rightarrow> cpp_type \<Rightarrow> bool" where
  "unary_reference_function AFunction T =
     (single_parameter_is (function_traits AFunction) (add_lvalue_reference T)
      \<or> single_parameter_is (call_operator_traits AFunction) (add_lvalue_reference T))"

definition unary_const_reference_function :: "cpp_type \<Rightarrow> cpp_type \<Rightarrow> bool" where
  "unary_const_reference_function AFunction T =
     (single_parameter_is (function_traits AFunction) (add_lvalue_reference (add_const T))
      \<or> single_parameter_is (call_operator_traits AFunction)
           (add_lvalue_reference (add_const T)))"



text \<open>
  The trailing return type \<^verbatim>\<open>decltype( a_function( std::declval<P>() ) )\<close> of either
  overload, for an \<open>AFunction\<close> that satisfies the overload's concept with the single
  parameter \<open>P\<close>: the argument then binds exactly, so the call is well-formed whenever
  \<open>a_function\<close> can be called with function-call syntax at all.  A pointer to member
  function cannot, although \<open>function_traits\<close> has a specialisation for it.
\<close>

fun trailing_return_type :: "cpp_type \<Rightarrow> cpp_type option" where
  "trailing_return_type (MemberFunctionPointer c r args cnst nx) = None"
| "trailing_return_type AFunction =
     (case function_traits AFunction of
        Some (r, args) \<Rightarrow> Some r
      | None \<Rightarrow> map_option fst (call_operator_traits AFunction))"

section \<open>Overload resolution of \<^verbatim>\<open>with_lock\<close> (lines 213--216 and 241--246)\<close>

text \<open>
  A cv-unqualified object type: for such a \<open>T\<close>, \<^verbatim>\<open>T &\<close> and \<^verbatim>\<open>const T &\<close> are two
  different types.
\<close>

fun cv_unqualified_object :: "cpp_type \<Rightarrow> bool" where
  "cv_unqualified_object (Fundamental n) = (n \<noteq> ''void'')"
| "cv_unqualified_object (Class n ops) = True"
| "cv_unqualified_object (Pointer t) = True"
| "cv_unqualified_object (MemberFunctionPointer c r args cnst nx) = True"
| "cv_unqualified_object t = False"

text \<open>
  The types \<open>basic_lock_wrapper<AContainedType, AMutexType>\<close> can be instantiated
  with.  The class declares a member \<^verbatim>\<open>AContainedType m_contained\<close> and member functions
  returning \<^verbatim>\<open>AContainedType *\<close> and \<^verbatim>\<open>AContainedType &\<close> (lines 180--202, 264), so the
  contained type is an object type, const-qualified or not: for a reference there is
  no pointer to it, and for \<^verbatim>\<open>void\<close> and a function type no member of it.  For any
  other type the class, and with it every call of \<open>with_lock\<close>, is ill-formed.
\<close>

fun instantiable :: "cpp_type \<Rightarrow> bool" where
  "instantiable (Const t) = cv_unqualified_object t"
| "instantiable t = cv_unqualified_object t"

text \<open>
  The first overload is a non-const member function, constrained by
  \<open>unary_reference_function\<close>; the second is a const member function, constrained by
  \<open>unary_const_reference_function\<close>.  A const wrapper can only call the second.  When
  both are viable on a non-const wrapper the first wins, its implicit object parameter
  binding without a qualification conversion.
\<close>

datatype handle = mutable_handle | const_handle

datatype overload = with_lock_mutable | with_lock_const

definition select_overload :: "handle \<Rightarrow> cpp_type \<Rightarrow> cpp_type \<Rightarrow> overload option" where
  "select_overload h AContainedType AFunction =
     (if \<not> instantiable AContainedType then None
      else if h = mutable_handle \<and> unary_reference_function AFunction AContainedType
         \<and> trailing_return_type AFunction \<noteq> None
      then Some with_lock_mutable
      else if unary_const_reference_function AFunction AContainedType
         \<and> trailing_return_type AFunction \<noteq> None
      then Some with_lock_const
      else None)"

section \<open>The standard mutexes and lock guards the header is built on\<close>

text \<open>
  The three mutex types for which the header specialises \<open>mutex_traits\<close>, with the
  contract the C++ standard gives their member functions.  A mutex is free, owned
  exclusively by one thread (a recursive mutex \<open>Suc n\<close> times for
  \<open>HeldExclusive t n\<close>), or owned in shared mode by one thread and the further
  threads listed.  An operation
  yields \<open>None\<close> when the calling thread cannot proceed: the mutex is owned by another
  thread (the call blocks), or the call is outside the contract (locking a
  non-recursive mutex twice, unlocking a mutex the thread does not own).
\<close>

type_synonym thread_id = nat

datatype mutex_kind = std_mutex | std_shared_mutex | std_recursive_mutex

datatype mutex_state =
    Free
  | HeldExclusive thread_id nat
  | HeldShared thread_id "thread_id list"

fun lock :: "mutex_kind \<Rightarrow> thread_id \<Rightarrow> mutex_state \<Rightarrow> mutex_state option" where
  "lock k t Free = Some (HeldExclusive t 0)"
| "lock std_recursive_mutex t (HeldExclusive u n) =
     (if u = t then Some (HeldExclusive t (Suc n)) else None)"
| "lock k t m = None"

fun unlock :: "thread_id \<Rightarrow> mutex_state \<Rightarrow> mutex_state option" where
  "unlock t (HeldExclusive u 0) = (if u = t then Some Free else None)"
| "unlock t (HeldExclusive u (Suc n)) = (if u = t then Some (HeldExclusive u n) else None)"
| "unlock t m = None"

fun lock_shared :: "mutex_kind \<Rightarrow> thread_id \<Rightarrow> mutex_state \<Rightarrow> mutex_state option" where
  "lock_shared std_shared_mutex t Free = Some (HeldShared t [])"
| "lock_shared std_shared_mutex t (HeldShared u us) =
     (if t \<in> set (u # us) then None else Some (HeldShared t (u # us)))"
| "lock_shared k t m = None"

fun unlock_shared :: "thread_id \<Rightarrow> mutex_state \<Rightarrow> mutex_state option" where
  "unlock_shared t (HeldShared u us) =
     (if t \<in> set (u # us)
      then Some (case remove1 t (u # us) of [] \<Rightarrow> Free | v # vs \<Rightarrow> HeldShared v vs)
      else None)"
| "unlock_shared t m = None"

text \<open>
  The guards: \<^verbatim>\<open>std::scoped_lock\<close> and \<^verbatim>\<open>std::unique_lock\<close> call \<^verbatim>\<open>lock()\<close> in their
  constructor and \<^verbatim>\<open>unlock()\<close> in their destructor, \<^verbatim>\<open>std::shared_lock\<close> calls
  \<^verbatim>\<open>lock_shared()\<close> and \<^verbatim>\<open>unlock_shared()\<close>.
\<close>

datatype lock_type = std_scoped_lock | std_unique_lock | std_shared_lock

fun construct_lock ::
  "lock_type \<Rightarrow> mutex_kind \<Rightarrow> thread_id \<Rightarrow> mutex_state \<Rightarrow> mutex_state option" where
  "construct_lock std_scoped_lock k t m = lock k t m"
| "construct_lock std_unique_lock k t m = lock k t m"
| "construct_lock std_shared_lock k t m = lock_shared k t m"

fun destroy_lock :: "lock_type \<Rightarrow> thread_id \<Rightarrow> mutex_state \<Rightarrow> mutex_state option" where
  "destroy_lock std_scoped_lock t m = unlock t m"
| "destroy_lock std_unique_lock t m = unlock t m"
| "destroy_lock std_shared_lock t m = unlock_shared t m"

section \<open>\<^verbatim>\<open>zdm::mutex_traits\<close> (lines 140--165) and the aliases (lines 267--274)\<close>

record mutex_traits_members =
  mutex_type :: mutex_kind
  unique_lock :: lock_type
  shared_lock :: lock_type

fun mutex_traits :: "mutex_kind \<Rightarrow> mutex_traits_members" where
  "mutex_traits std_mutex =
     \<lparr>mutex_type = std_mutex, unique_lock = std_scoped_lock, shared_lock = std_scoped_lock\<rparr>"
| "mutex_traits std_shared_mutex =
     \<lparr>mutex_type = std_shared_mutex, unique_lock = std_unique_lock,
      shared_lock = std_shared_lock\<rparr>"
| "mutex_traits std_recursive_mutex =
     \<lparr>mutex_type = std_recursive_mutex, unique_lock = std_scoped_lock,
      shared_lock = std_scoped_lock\<rparr>"

text \<open>
  The alias templates at the end of the header, each \<open>basic_lock_wrapper<T, M>\<close> for
  the mutex type \<open>M\<close> given here.
\<close>

datatype wrapper_alias = lock_wrapper | shared_lock_wrapper | recursive_lock_wrapper

fun alias_mutex_type :: "wrapper_alias \<Rightarrow> mutex_kind" where
  "alias_mutex_type lock_wrapper = std_mutex"
| "alias_mutex_type shared_lock_wrapper = std_shared_mutex"
| "alias_mutex_type recursive_lock_wrapper = std_recursive_mutex"

definition wrapper_aliases :: "wrapper_alias list" where
  "wrapper_aliases = [lock_wrapper, shared_lock_wrapper, recursive_lock_wrapper]"

section \<open>\<^verbatim>\<open>zdm::basic_lock_wrapper\<close> (lines 167--265)\<close>

text \<open>
  The class template has the template arguments \<open>AContainedType\<close> (a \<open>cpp_type\<close>, with
  values of the HOL type \<open>'a\<close>) and \<open>AMutexType\<close> (a \<open>mutex_kind\<close>), and the two data
  members below.
\<close>

record 'a basic_lock_wrapper =
  m_mutex :: mutex_state
  m_contained :: 'a

subsection \<open>Constructors (lines 171--178)\<close>

text \<open>
  How an object of the contained type is initialised when no initialiser is given, as
  far as the wrapper's default constructor depends on it:
  \<^item> \<open>zero_value\<close> is the zero-initialised object;
  \<^item> \<open>default_constructor storage\<close> is what default-initialisation makes of an object
    whose storage holds \<open>storage\<close>: the same \<open>storage\<close> for a scalar type (nothing is
    done), one fixed value for a class whose constructor sets every member, and a
    mixture for a class whose constructor leaves a scalar member alone;
  \<^item> \<open>user_provided\<close> says whether the type is a class with a user-provided default
    constructor.
  The contained type is taken to have a usable default constructor; without one the
  wrapper's own is deleted.
\<close>

record 'a initialization =
  zero_value :: 'a
  default_constructor :: "'a \<Rightarrow> 'a"
  user_provided :: bool

definition default_initialize :: "'a initialization \<Rightarrow> 'a \<Rightarrow> 'a" where
  "default_initialize ini storage = default_constructor ini storage"

text \<open>
  Value-initialisation: an object of a class with a user-provided default constructor
  is default-initialised; an object of any other type is zero-initialised and then
  default-initialised.
\<close>

definition value_initialize :: "'a initialization \<Rightarrow> 'a \<Rightarrow> 'a" where
  "value_initialize ini storage =
     (if user_provided ini then default_initialize ini storage
      else default_initialize ini (zero_value ini))"

text \<open>
  \<^verbatim>\<open>basic_lock_wrapper() = default;\<close> with the member declared as
  \<^verbatim>\<open>AContainedType m_contained;\<close> (no initialiser): the constructor default-initialises
  both members.  It is not user-provided, so a wrapper that is itself
  value-initialised (\<^verbatim>\<open>W w{}\<close>, \<^verbatim>\<open>W()\<close>) has its storage zeroed before the constructor
  runs; a wrapper declared \<^verbatim>\<open>W w;\<close> has not.  \<open>indeterminate\<close> is what the storage of
  the member happens to hold.
\<close>

datatype initializer = no_initializer | empty_initializer

definition basic_lock_wrapper_default ::
  "'a initialization \<Rightarrow> 'a \<Rightarrow> initializer \<Rightarrow> 'a basic_lock_wrapper" where
  "basic_lock_wrapper_default ini indeterminate init =
     \<lparr>m_mutex = Free,
      m_contained =
        default_initialize ini
          (case init of
             empty_initializer \<Rightarrow> zero_value ini
           | no_initializer \<Rightarrow> indeterminate)\<rparr>"

text \<open>
  \<^verbatim>\<open>explicit basic_lock_wrapper( AContainedType &&a_contained )\<close>: the member is
  move-constructed from the argument (an rvalue; the parameter is not a forwarding
  reference), the mutex default-constructed.
\<close>

definition basic_lock_wrapper_from :: "'a \<Rightarrow> 'a basic_lock_wrapper" where
  "basic_lock_wrapper_from a_contained = \<lparr>m_mutex = Free, m_contained = a_contained\<rparr>"

subsection \<open>Unsynchronised access (lines 180--202)\<close>

text \<open>
  \<^verbatim>\<open>operator*\<close> and \<^verbatim>\<open>operator->\<close>, const and non-const, hand out \<open>m_contained\<close>
  itself; none of them names \<open>m_mutex\<close>.  Reading through the result is modelled.
\<close>

definition operator_star :: "'a basic_lock_wrapper \<Rightarrow> 'a" where
  "operator_star w = m_contained w"

definition operator_star_const :: "'a basic_lock_wrapper \<Rightarrow> 'a" where
  "operator_star_const w = m_contained w"

definition operator_arrow :: "'a basic_lock_wrapper \<Rightarrow> 'a" where
  "operator_arrow w = m_contained w"

definition operator_arrow_const :: "'a basic_lock_wrapper \<Rightarrow> 'a" where
  "operator_arrow_const w = m_contained w"

subsection \<open>\<^verbatim>\<open>with_lock\<close> (lines 213--260)\<close>

text \<open>
  What a callable does when called with a reference to a value of type \<open>'a\<close>: through
  a reference to non-const it may write the value, through a reference to const it can
  only read.  It either throws (\<open>Inl e\<close>) or returns (\<open>Inr r\<close>, with \<open>r = None\<close> for a
  function returning \<^verbatim>\<open>void\<close>).
\<close>

datatype ('a, 'e, 'r) body =
    writes "'a \<Rightarrow> ('e + 'r option) \<times> 'a"
  | reads "'a \<Rightarrow> 'e + 'r option"

fun invoke :: "('a, 'e, 'r) body \<Rightarrow> 'a \<Rightarrow> ('e + 'r option) \<times> 'a" where
  "invoke (writes f) v = f v"
| "invoke (reads g) v = (g v, v)"

text \<open>
  \<^verbatim>\<open>std::is_void_v<decltype( a_function( m_contained ) )>\<close>, the condition of the
  \<^verbatim>\<open>if constexpr\<close>.
\<close>

definition returns_void :: "cpp_type \<Rightarrow> bool" where
  "returns_void AFunction =
     (case trailing_return_type AFunction of None \<Rightarrow> False | Some r \<Rightarrow> is_void r)"

text \<open>
  What the caller of \<open>with_lock\<close> receives when the callable ended with \<open>res\<close>: an
  exception propagates; in the \<^verbatim>\<open>is_void_v\<close> branch (\<^verbatim>\<open>a_function( m_contained ); return;\<close>)
  nothing is returned; in the other branch (\<^verbatim>\<open>return a_function( m_contained );\<close>)
  the callable's result is.
\<close>

definition propagate :: "cpp_type \<Rightarrow> 'e + 'r option \<Rightarrow> 'e + 'r option" where
  "propagate AFunction res =
     (case res of
        Inl e \<Rightarrow> Inl e
      | Inr r \<Rightarrow> if returns_void AFunction then Inr None else Inr r)"

text \<open>What a run of \<^verbatim>\<open>with_lock\<close> did to the mutex and the callable, in order.\<close>

datatype event = lock_constructed lock_type | function_called | lock_destroyed lock_type

text \<open>
  The result of evaluating \<^verbatim>\<open>wrapper.with_lock( a_function )\<close>:
  \<^item> \<open>ill_formed\<close>: no overload is viable, the program does not compile;
  \<^item> \<open>blocks\<close>: the guard's constructor does not return;
  \<^item> \<open>contract_violation\<close>: the guard's destructor unlocks a mutex its thread does not
    own (undefined behaviour);
  \<^item> \<open>finishes res w' evs\<close>: the call returns \<open>r\<close> to its caller (\<open>res = Inr r\<close>) or the
    exception \<open>e\<close> leaves it (\<open>res = Inl e\<close>), the wrapper is then \<open>w'\<close>, and \<open>evs\<close>
    happened before that.
\<close>

datatype ('a, 'e, 'r) run =
    ill_formed
  | blocks
  | contract_violation
  | finishes "'e + 'r option" "'a basic_lock_wrapper" "event list"

text \<open>
  The body shared by both overloads, for the guard type \<open>lk\<close>: the guard is
  constructed on \<open>m_mutex\<close>; the callable is called on \<open>m_contained\<close>; its result or
  exception is propagated.  Leaving the scope either way destroys the guard.
\<close>

definition run_under ::
  "lock_type \<Rightarrow> mutex_kind \<Rightarrow> thread_id \<Rightarrow> cpp_type \<Rightarrow> ('a, 'e, 'r) body
     \<Rightarrow> 'a basic_lock_wrapper \<Rightarrow> ('a, 'e, 'r) run" where
  "run_under lk AMutexType t AFunction a_function w =
     (case construct_lock lk AMutexType t (m_mutex w) of
        None \<Rightarrow> blocks
      | Some held \<Rightarrow>
          (let (res, v) = invoke a_function (m_contained w)
           in case destroy_lock lk t held of
                None \<Rightarrow> contract_violation
              | Some released \<Rightarrow>
                  finishes (propagate AFunction res) \<lparr>m_mutex = released, m_contained = v\<rparr>
                    [lock_constructed lk, function_called, lock_destroyed lk]))"

text \<open>The non-const overload (lines 213--230) takes \<open>mutex_traits::unique_lock\<close>.\<close>

definition with_lock_unique ::
  "mutex_kind \<Rightarrow> thread_id \<Rightarrow> cpp_type \<Rightarrow> ('a, 'e, 'r) body
     \<Rightarrow> 'a basic_lock_wrapper \<Rightarrow> ('a, 'e, 'r) run" where
  "with_lock_unique AMutexType t AFunction a_function w =
     run_under (unique_lock (mutex_traits AMutexType)) AMutexType t AFunction a_function w"

text \<open>The const overload (lines 241--260) takes \<open>mutex_traits::shared_lock\<close>.\<close>

definition with_lock_shared ::
  "mutex_kind \<Rightarrow> thread_id \<Rightarrow> cpp_type \<Rightarrow> ('a, 'e, 'r) body
     \<Rightarrow> 'a basic_lock_wrapper \<Rightarrow> ('a, 'e, 'r) run" where
  "with_lock_shared AMutexType t AFunction a_function w =
     run_under (shared_lock (mutex_traits AMutexType)) AMutexType t AFunction a_function w"

text \<open>
  The call \<^verbatim>\<open>wrapper.with_lock( a_function )\<close> made by thread \<open>t\<close> on a wrapper
  expression of constness \<open>h\<close>, for a callable of deduced type \<open>AFunction\<close>: overload
  resolution, then the body of the overload chosen.
\<close>

definition with_lock ::
  "cpp_type \<Rightarrow> mutex_kind \<Rightarrow> handle \<Rightarrow> thread_id \<Rightarrow> cpp_type \<Rightarrow> ('a, 'e, 'r) body
     \<Rightarrow> 'a basic_lock_wrapper \<Rightarrow> ('a, 'e, 'r) run" where
  "with_lock AContainedType AMutexType h t AFunction a_function w =
     (case select_overload h AContainedType AFunction of
        None \<Rightarrow> ill_formed
      | Some with_lock_mutable \<Rightarrow> with_lock_unique AMutexType t AFunction a_function w
      | Some with_lock_const \<Rightarrow> with_lock_shared AMutexType t AFunction a_function w)"

section \<open>The functions and closures of the unit tests\<close>

text \<open>
  \<^verbatim>\<open>tests/unit_tests/lock_wrapper.test.cpp\<close>, lines 8--22: \<^verbatim>\<open>void increment_value( int& )\<close>
  and \<^verbatim>\<open>int get_incremented_value( const int& )\<close>, their function types, and the closure
  types of the lambda expressions \<^verbatim>\<open>[]( int& value ) { value += 1; }\<close> and
  \<^verbatim>\<open>[]( const int& value ) { return value + 1; }\<close>.  The values the tests use stay far
  from the bounds of \<^verbatim>\<open>int\<close>, so the arithmetic is that of the integers.
\<close>

definition int_type :: cpp_type where
  "int_type = Fundamental ''int''"

definition void_type :: cpp_type where
  "void_type = Fundamental ''void''"


definition increment_value :: "(int, 'e, 'r) body" where
  "increment_value = writes (\<lambda>v. (Inr None, v + 1))"


definition get_incremented_value :: "(int, 'e, int) body" where
  "get_incremented_value = reads (\<lambda>v. Inr (Some (v + 1)))"

definition reference_lambda_type :: cpp_type where
  "reference_lambda_type =
     Class ''lambda(int&)'' [CallOperator False True False void_type [LvalueRef int_type]]"

definition const_reference_lambda_type :: cpp_type where
  "const_reference_lambda_type =
     Class ''lambda(const int&)''
       [CallOperator False True False int_type [LvalueRef (Const int_type)]]"

text \<open>
  Further callables the properties are tried on: a lambda taking its argument by
  value, \<^verbatim>\<open>[]( int value ) { return value + 1; }\<close>; a lambda declared \<^verbatim>\<open>mutable\<close>, whose
  call operator is not const; a generic lambda \<^verbatim>\<open>[]( auto& value ) { ++value; }\<close>,
  whose call operator is a template; and the behaviour of a callable that increments
  the value and then throws.
\<close>

definition by_value_lambda_type :: cpp_type where
  "by_value_lambda_type =
     Class ''lambda(int)'' [CallOperator False True False int_type [int_type]]"

definition mutable_lambda_type :: cpp_type where
  "mutable_lambda_type =
     Class ''lambda(int&) mutable''
       [CallOperator False False False void_type [LvalueRef int_type]]"

definition generic_lambda_type :: cpp_type where
  "generic_lambda_type =
     Class ''lambda(auto&)''
       [CallOperator True True False void_type [LvalueRef (TypeParameter ''auto'')]]"

definition increment_then_throw :: "(int, string, 'r) body" where
  "increment_then_throw = writes (\<lambda>v. (Inl ''thrown'', v + 1))"

text \<open>
  Contained types the default constructor is tried on: \<^verbatim>\<open>int\<close>; a string class, whose
  user-provided default constructor makes the empty string; and
  \<^verbatim>\<open>struct { int x; std::string s; }\<close>, whose implicit default constructor sets \<open>s\<close> and
  leaves \<open>x\<close> alone.
\<close>

definition int_initialization :: "int initialization" where
  "int_initialization =
     \<lparr>zero_value = 0, default_constructor = (\<lambda>storage. storage), user_provided = False\<rparr>"

definition string_initialization :: "string initialization" where
  "string_initialization =
     \<lparr>zero_value = [], default_constructor = (\<lambda>storage. []), user_provided = True\<rparr>"

definition struct_initialization :: "(int \<times> string) initialization" where
  "struct_initialization =
     \<lparr>zero_value = (0, []), default_constructor = (\<lambda>(x, s). (x, [])),
      user_provided = False\<rparr>"

section \<open>Notions the properties are stated with\<close>

text \<open>
  The parameter list a callable type declares, whatever its qualifiers: of a function,
  of a pointer to a function, of a class with a single call operator, and of a
  reference to or a const version of one of these.
\<close>

fun declared_parameters :: "cpp_type \<Rightarrow> cpp_type list option" where
  "declared_parameters (Function r args nx) = Some args"
| "declared_parameters (Pointer (Function r args nx)) = Some args"
| "declared_parameters (Class n [CallOperator tmpl cnst nx r args]) = Some args"
| "declared_parameters (LvalueRef t) = declared_parameters t"
| "declared_parameters (RvalueRef t) = declared_parameters t"
| "declared_parameters (Const t) = declared_parameters t"
| "declared_parameters t = None"

text \<open>The guard type an overload constructs, by the two bodies of \<open>with_lock\<close>.\<close>

fun guard_of :: "overload \<Rightarrow> mutex_kind \<Rightarrow> lock_type" where
  "guard_of with_lock_mutable AMutexType = unique_lock (mutex_traits AMutexType)"
| "guard_of with_lock_const AMutexType = shared_lock (mutex_traits AMutexType)"

text \<open>A run of \<open>with_lock\<close> that comes back to its caller, by return or by exception.\<close>

fun comes_back :: "('a, 'e, 'r) run \<Rightarrow> bool" where
  "comes_back (finishes res w evs) = True"
| "comes_back other = False"

text \<open>
  A callable returns no value exactly when its return type is \<^verbatim>\<open>void\<close>: the agreement
  between the type \<open>AFunction\<close> and the behaviour \<open>a_function\<close> that the compiler
  enforces.
\<close>

fun agrees_on_void :: "cpp_type \<Rightarrow> 'e + 'r option \<Rightarrow> bool" where
  "agrees_on_void AFunction (Inl e) = True"
| "agrees_on_void AFunction (Inr r) = (returns_void AFunction = (r = None))"

section \<open>Threads calling \<^verbatim>\<open>with_lock\<close> on one wrapper\<close>

text \<open>
  The test \<^verbatim>\<open>lock_wrapper - test with 4 threads\<close> (test file, lines 107--145): every
  thread calls \<^verbatim>\<open>wrapper.with_lock( []( int& value ) { ++value; } )\<close> a number of times
  in a row on the same non-const wrapper, and the main thread joins them all.  The
  threads are interleaved step by step; a call is four steps of its thread, as the
  body of the non-const overload has them:
  \<^item> the guard \<open>mutex_traits::unique_lock\<close> is constructed (the step is not possible
    while the mutex cannot be locked: the thread waits);
  \<^item> the callable reads the value through its reference;
  \<^item> the callable writes the incremented value;
  \<^item> the guard is destroyed.
  Reading and writing are two steps, so that an increment would be lost if two
  threads could be between them at the same time.  Every access to the value is made
  holding the mutex, so the program has no data race and its executions are the
  interleavings.  \<open>increment\<close> is what \<^verbatim>\<open>++value\<close> does to a value of the contained type.
\<close>

datatype 'a stage = outside | guard_constructed | value_read 'a | value_written

record 'a thread =
  calls_left :: nat
  stage :: "'a stage"

record 'a system =
  wrapper :: "'a basic_lock_wrapper"
  threads :: "'a thread list"

definition thread_step ::
  "mutex_kind \<Rightarrow> ('a \<Rightarrow> 'a) \<Rightarrow> thread_id \<Rightarrow> 'a system \<Rightarrow> 'a system option" where
  "thread_step AMutexType increment t s =
     (if length (threads s) \<le> t then None
      else
        let th = threads s ! t; w = wrapper s; lk = unique_lock (mutex_traits AMutexType)
        in case stage th of
             outside \<Rightarrow>
               (if calls_left th = 0 then None
                else case construct_lock lk AMutexType t (m_mutex w) of
                       None \<Rightarrow> None
                     | Some held \<Rightarrow>
                         Some (s\<lparr>wrapper := w\<lparr>m_mutex := held\<rparr>,
                                 threads := (threads s)[t := th\<lparr>stage := guard_constructed\<rparr>]\<rparr>))
           | guard_constructed \<Rightarrow>
               Some (s\<lparr>threads := (threads s)[t := th\<lparr>stage := value_read (m_contained w)\<rparr>]\<rparr>)
           | value_read v \<Rightarrow>
               Some (s\<lparr>wrapper := w\<lparr>m_contained := increment v\<rparr>,
                       threads := (threads s)[t := th\<lparr>stage := value_written\<rparr>]\<rparr>)
           | value_written \<Rightarrow>
               (case destroy_lock lk t (m_mutex w) of
                  None \<Rightarrow> None
                | Some released \<Rightarrow>
                    Some (s\<lparr>wrapper := w\<lparr>m_mutex := released\<rparr>,
                            threads := (threads s)
                              [t := \<lparr>calls_left = calls_left th - 1, stage = outside\<rparr>]\<rparr>)))"

text \<open>
  The callable of the test, \<^verbatim>\<open>[]( int& value ) { ++value; }\<close>, as \<open>with_lock\<close> is handed
  it: it writes the incremented value and returns nothing.
\<close>

definition increment_call :: "('a \<Rightarrow> 'a) \<Rightarrow> ('a, 'e, 'r) body" where
  "increment_call increment = writes (\<lambda>v. (Inr None, increment v))"

text \<open>
  The calls \<^verbatim>\<open>wrapper.with_lock( a_function )\<close> of that callable made one after another
  by the threads \<open>order\<close> lists, each on the wrapper the call before it left.
\<close>

fun calls_in_turn ::
  "cpp_type \<Rightarrow> mutex_kind \<Rightarrow> cpp_type \<Rightarrow> ('a \<Rightarrow> 'a) \<Rightarrow> thread_id list
     \<Rightarrow> 'a basic_lock_wrapper \<Rightarrow> 'a basic_lock_wrapper option" where
  "calls_in_turn AContainedType AMutexType AFunction increment [] w = Some w"
| "calls_in_turn AContainedType AMutexType AFunction increment (t # ts) w =
     (case (with_lock AContainedType AMutexType mutable_handle t AFunction
              (increment_call increment) w :: ('a, unit, unit) run) of
        finishes res w' evs \<Rightarrow>
          calls_in_turn AContainedType AMutexType AFunction increment ts w'
      | other \<Rightarrow> None)"

text \<open>
  An execution is a schedule: the list of the threads that take the steps, in order.
  A schedule that names a thread which cannot take a step is no execution (\<open>None\<close>).
\<close>

fun run_schedule ::
  "mutex_kind \<Rightarrow> ('a \<Rightarrow> 'a) \<Rightarrow> thread_id list \<Rightarrow> 'a system \<Rightarrow> 'a system option" where
  "run_schedule AMutexType increment [] s = Some s"
| "run_schedule AMutexType increment (t # ts) s =
     (case thread_step AMutexType increment t s of
        None \<Rightarrow> None
      | Some s' \<Rightarrow> run_schedule AMutexType increment ts s')"

text \<open>
  The start: a wrapper constructed from \<open>v\<close>, and one thread for each element of
  \<open>ks\<close>, with that many calls to make.  The end: every thread has made all its calls,
  and can be joined.
\<close>

definition start :: "'a \<Rightarrow> nat list \<Rightarrow> 'a system" where
  "start v ks =
     \<lparr>wrapper = basic_lock_wrapper_from v,
      threads = map (\<lambda>k. \<lparr>calls_left = k, stage = outside\<rparr>) ks\<rparr>"

definition all_joined :: "'a system \<Rightarrow> bool" where
  "all_joined s = list_all (\<lambda>th. calls_left th = 0 \<and> stage th = outside) (threads s)"

text \<open>The steps a thread still has to take, and the steps all threads have to take.\<close>

fun steps_left :: "'a thread \<Rightarrow> nat" where
  "steps_left th =
     (case stage th of
        outside \<Rightarrow> 4 * calls_left th
      | guard_constructed \<Rightarrow> 4 * (calls_left th - 1) + 3
      | value_read v \<Rightarrow> 4 * (calls_left th - 1) + 2
      | value_written \<Rightarrow> 4 * (calls_left th - 1) + 1)"

definition work_left :: "'a system \<Rightarrow> nat" where
  "work_left s = sum_list (map steps_left (threads s))"

text \<open>
  What holds of every state the threads can reach from \<open>start v ks\<close>: the mutex is free
  and every thread is outside a call, or one thread holds it (once) and is inside a
  call while the others are outside; the value is the start value incremented once
  for every call completed, and once more when the thread inside has written.
\<close>

definition calls_made :: "nat list \<Rightarrow> 'a system \<Rightarrow> nat" where
  "calls_made ks s = sum_list ks - sum_list (map calls_left (threads s))"

definition consistent :: "'a \<Rightarrow> ('a \<Rightarrow> 'a) \<Rightarrow> nat list \<Rightarrow> 'a system \<Rightarrow> bool" where
  "consistent v increment ks s =
     (length (threads s) = length ks
      \<and> sum_list (map calls_left (threads s)) \<le> sum_list ks
      \<and> (case m_mutex (wrapper s) of
            Free \<Rightarrow>
              (\<forall>i < length ks. stage (threads s ! i) = outside)
              \<and> m_contained (wrapper s) = (increment ^^ calls_made ks s) v
          | HeldExclusive t n \<Rightarrow>
              n = 0 \<and> t < length ks \<and> 0 < calls_left (threads s ! t)
              \<and> (\<forall>i < length ks. i \<noteq> t \<longrightarrow> stage (threads s ! i) = outside)
              \<and> (case stage (threads s ! t) of
                    outside \<Rightarrow> False
                  | guard_constructed \<Rightarrow>
                      m_contained (wrapper s) = (increment ^^ calls_made ks s) v
                  | value_read x \<Rightarrow>
                      x = m_contained (wrapper s)
                      \<and> m_contained (wrapper s) = (increment ^^ calls_made ks s) v
                  | value_written \<Rightarrow>
                      m_contained (wrapper s) = (increment ^^ Suc (calls_made ks s)) v)
          | HeldShared u us \<Rightarrow> False))"

text \<open>
  One execution of the test's four threads with 25 calls each: the threads take turns
  in the order 2, 0, 3, 1, a whole call at a time.
\<close>

definition four_threads_schedule :: "thread_id list" where
  "four_threads_schedule = concat (replicate 25 [2, 2, 2, 2, 0, 0, 0, 0, 3, 3, 3, 3, 1, 1, 1, 1])"

section \<open>Properties of the mutex operations\<close>

lemma destroy_after_construct:
  "construct_lock lk k t m = Some held \<Longrightarrow> destroy_lock lk t held = Some m"
  by (cases lk; cases k; cases m) (auto split: if_splits)

lemma unique_lock_on_free:
  "construct_lock (unique_lock (mutex_traits k)) k t Free = Some (HeldExclusive t 0)"
  by (cases k) simp_all

lemma shared_lock_on_free:
  "construct_lock (shared_lock (mutex_traits k)) k t Free =
     Some (if k = std_shared_mutex then HeldShared t [] else HeldExclusive t 0)"
  by (cases k) simp_all

lemma guard_on_free: "construct_lock (guard_of ov k) k t Free \<noteq> None"
  by (cases ov) (simp_all add: unique_lock_on_free shared_lock_on_free)

section \<open>What the traits and the concepts accept\<close>

lemma single_parameter_is_iff:
  "single_parameter_is traits P \<longleftrightarrow> (\<exists>r. traits = Some (r, [P]))"
proof (cases traits)
  case None
  then show ?thesis by (simp add: single_parameter_is_def)
next
  case (Some ra)
  obtain r args where ra: "ra = (r, args)" by (cases ra)
  have "length args = 1 \<and> args ! 0 = P \<longleftrightarrow> args = [P]"
    by (cases args) auto
  with Some ra show ?thesis
    by (auto simp: single_parameter_is_def)
qed

lemma function_traits_Some:
  "function_traits F = Some (r, args) \<longleftrightarrow>
     F = LvalueRef (Function r args False) \<or> F = Pointer (Function r args False)
     \<or> F = Function r args False \<or> (\<exists>c. F = MemberFunctionPointer c r args True False)"
  by (cases F rule: function_traits.cases) auto

lemma address_of_call_operator_Some:
  "address_of_call_operator F = Some pmf \<longleftrightarrow>
     (\<exists>n cnst nx r args.
        (F = Class n [CallOperator False cnst nx r args]
         \<or> F = Const (Class n [CallOperator False cnst nx r args]))
        \<and> pmf = MemberFunctionPointer n r args cnst nx)"
  by (cases F rule: address_of_call_operator.cases) auto

lemma call_operator_traits_Some:
  "call_operator_traits F = Some (r, args) \<longleftrightarrow>
     (\<exists>n. F = Class n [CallOperator False True False r args]
          \<or> F = Const (Class n [CallOperator False True False r args]))"
  by (auto simp: call_operator_traits_def address_of_call_operator_Some function_traits_Some
      split: option.splits)

lemma run_under_eq:
  "run_under lk k t F a w =
     (case construct_lock lk k t (m_mutex w) of
        None \<Rightarrow> blocks
      | Some held \<Rightarrow>
          finishes (propagate F (fst (invoke a (m_contained w))))
            \<lparr>m_mutex = m_mutex w, m_contained = snd (invoke a (m_contained w))\<rparr>
            [lock_constructed lk, function_called, lock_destroyed lk])"
  by (auto simp: run_under_def destroy_after_construct split: option.splits prod.splits)

lemma cv_unqualified_object_refs:
  assumes "cv_unqualified_object T"
  shows "add_lvalue_reference T = LvalueRef T"
    and "add_lvalue_reference (add_const T) = LvalueRef (Const T)"
  using assms by (cases T; simp)+

lemma accepted_declares_one_parameter:
  assumes "select_overload h T F = Some ov"
  shows "declared_parameters F = Some [add_lvalue_reference T]
         \<or> declared_parameters F = Some [add_lvalue_reference (add_const T)]"
proof -
  from assms have tr: "trailing_return_type F \<noteq> None"
    and c: "unary_reference_function F T \<or> unary_const_reference_function F T"
    by (auto simp: select_overload_def split: if_splits)
  from c obtain r P where P: "P = add_lvalue_reference T \<or> P = add_lvalue_reference (add_const T)"
    and t: "function_traits F = Some (r, [P]) \<or> call_operator_traits F = Some (r, [P])"
    by (auto simp: unary_reference_function_def unary_const_reference_function_def
        single_parameter_is_iff)
  from t tr have "declared_parameters F = Some [P]"
    by (auto simp: function_traits_Some call_operator_traits_Some)
  with P show ?thesis by auto
qed

lemma Const_neq: "Const T \<noteq> T"
proof
  assume "Const T = T"
  then have "size (Const T) = size T"
    by simp
  then show False
    by simp
qed

lemma cv_unqualified_object_distinct:
  assumes "cv_unqualified_object T"
  shows "add_lvalue_reference (add_const T) \<noteq> add_lvalue_reference T"
  using Const_neq [of T] by (simp add: cv_unqualified_object_refs [OF assms])



lemma with_lock_on_free:
  assumes "select_overload h T F = Some ov" and "m_mutex w = Free"
  shows "with_lock T M h t F a w =
     finishes (propagate F (fst (invoke a (m_contained w))))
       (w\<lparr>m_contained := snd (invoke a (m_contained w))\<rparr>)
       [lock_constructed (guard_of ov M), function_called, lock_destroyed (guard_of ov M)]"
proof (cases ov)
  case with_lock_mutable
  with assms show ?thesis
    by (simp add: with_lock_def with_lock_unique_def run_under_eq unique_lock_on_free)
next
  case with_lock_const
  with assms show ?thesis
    by (simp add: with_lock_def with_lock_shared_def run_under_eq shared_lock_on_free)
qed

lemma propagate_agrees: "agrees_on_void F res \<Longrightarrow> propagate F res = res"
  by (cases res) (auto simp: propagate_def)

lemma propagate_error: "propagate F (Inl e) = Inl e"
  by (simp add: propagate_def)

lemma propagate_nothing: "propagate F (Inr None) = Inr None"
  by (simp add: propagate_def)

section \<open>What the threads can reach\<close>

lemma sum_list_map_update_less:
  fixes f :: "'b \<Rightarrow> nat"
  assumes "t < length xs" and "f y < f (xs ! t)"
  shows "sum_list (map f (xs[t := y])) < sum_list (map f xs)"
  using assms
proof (induction xs arbitrary: t)
  case Nil
  then show ?case by simp
next
  case (Cons x xs)
  then show ?case by (cases t) auto
qed

lemma sum_list_map_update_same:
  fixes f :: "'b \<Rightarrow> nat"
  assumes "t < length xs" and "f y = f (xs ! t)"
  shows "sum_list (map f (xs[t := y])) = sum_list (map f xs)"
  using assms
proof (induction xs arbitrary: t)
  case Nil
  then show ?case by simp
next
  case (Cons x xs)
  then show ?case by (cases t) auto
qed

lemma sum_list_map_update_pred:
  fixes f :: "'b \<Rightarrow> nat"
  assumes "t < length xs" and "Suc (f y) = f (xs ! t)"
  shows "Suc (sum_list (map f (xs[t := y]))) = sum_list (map f xs)"
  using assms
proof (induction xs arbitrary: t)
  case Nil
  then show ?case by simp
next
  case (Cons x xs)
  then show ?case by (cases t) auto
qed

lemma thread_step_work_left:
  assumes "thread_step M inc t s = Some s'"
  shows "work_left s' < work_left s"
proof -
  from assms have t: "t < length (threads s)"
    by (auto simp: thread_step_def split: if_splits)
  from assms obtain y where s': "threads s' = (threads s)[t := y]"
    and y: "steps_left y < steps_left (threads s ! t)"
    by (cases "stage (threads s ! t)")
      (auto simp: thread_step_def Let_def t split: if_splits option.splits)
  show ?thesis
    unfolding work_left_def s' by (rule sum_list_map_update_less [OF t y])
qed

lemma construct_unique_lock:
  "construct_lock (unique_lock (mutex_traits k)) k t m = lock k t m"
  by (cases k) simp_all

lemma destroy_unique_lock:
  "destroy_lock (unique_lock (mutex_traits k)) t m = unlock t m"
  by (cases k) simp_all

lemma consistent_inside:
  assumes "consistent v inc ks s" and "t < length ks" and "stage (threads s ! t) \<noteq> outside"
  shows "m_mutex (wrapper s) = HeldExclusive t 0"
  using assms by (cases "m_mutex (wrapper s)") (auto simp: consistent_def)

lemma consistent_outside:
  assumes "consistent v inc ks s" and "t < length ks" and "stage (threads s ! t) = outside"
    and "lock M t (m_mutex (wrapper s)) = Some held"
  shows "m_mutex (wrapper s) = Free \<and> held = HeldExclusive t 0"
proof (cases "m_mutex (wrapper s)")
  case Free
  with assms(4) show ?thesis by simp
next
  case (HeldExclusive u n)
  with assms(4) have "u = t"
    by (cases M) (auto split: if_splits)
  with HeldExclusive assms(1,3) show ?thesis
    by (auto simp: consistent_def)
next
  case (HeldShared u us)
  with assms(1) show ?thesis
    by (simp add: consistent_def)
qed

lemma calls_made_update_same:
  assumes "t < length (threads s)" and "calls_left y = calls_left (threads s ! t)"
    and "threads s' = (threads s)[t := y]"
  shows "calls_made ks s' = calls_made ks s"
    and "sum_list (map calls_left (threads s')) = sum_list (map calls_left (threads s))"
  using sum_list_map_update_same [OF assms(1), of calls_left y] assms(2,3)
  by (simp_all add: calls_made_def)

lemma consistent_step:
  assumes inv: "consistent v inc ks s" and step: "thread_step M inc t s = Some s'"
  shows "consistent v inc ks s'"
proof -
  from step have t: "t < length (threads s)"
    by (auto simp: thread_step_def split: if_splits)
  from inv have len: "length (threads s) = length ks"
    and le: "sum_list (map calls_left (threads s)) \<le> sum_list ks"
    by (simp_all add: consistent_def)
  from t len have tk: "t < length ks" by simp
  let ?th = "threads s ! t"
  show ?thesis
  proof (cases "stage ?th")
    case outside
    with step t obtain held where c: "0 < calls_left ?th"
      and l: "lock M t (m_mutex (wrapper s)) = Some held"
      and s': "s' = s\<lparr>wrapper := (wrapper s)\<lparr>m_mutex := held\<rparr>,
                  threads := (threads s)[t := ?th\<lparr>stage := guard_constructed\<rparr>]\<rparr>"
      by (auto simp: thread_step_def Let_def construct_unique_lock
          split: if_splits option.splits)
    from consistent_outside [OF inv tk outside l]
    have free: "m_mutex (wrapper s) = Free" and held: "held = HeldExclusive t 0"
      by simp_all
    have same: "calls_made ks s' = calls_made ks s"
      "sum_list (map calls_left (threads s')) = sum_list (map calls_left (threads s))"
      by (rule calls_made_update_same [OF t, of "?th\<lparr>stage := guard_constructed\<rparr>"];
          simp add: s')+
    from inv free have "\<forall>i < length ks. stage (threads s ! i) = outside"
      and "m_contained (wrapper s) = (inc ^^ calls_made ks s) v"
      by (simp_all add: consistent_def)
    with c t tk len le same show ?thesis
      unfolding consistent_def by (simp add: s' held nth_list_update)
  next
    case guard_constructed
    with step t have s': "s' = s\<lparr>threads :=
        (threads s)[t := ?th\<lparr>stage := value_read (m_contained (wrapper s))\<rparr>]\<rparr>"
      by (auto simp: thread_step_def Let_def)
    from consistent_inside [OF inv tk] guard_constructed
    have held: "m_mutex (wrapper s) = HeldExclusive t 0"
      by simp
    have same: "calls_made ks s' = calls_made ks s"
      "sum_list (map calls_left (threads s')) = sum_list (map calls_left (threads s))"
      by (rule calls_made_update_same [OF t,
            of "?th\<lparr>stage := value_read (m_contained (wrapper s))\<rparr>"]; simp add: s')+
    from inv held guard_constructed have "0 < calls_left ?th"
      and "\<forall>i < length ks. i \<noteq> t \<longrightarrow> stage (threads s ! i) = outside"
      and "m_contained (wrapper s) = (inc ^^ calls_made ks s) v"
      by (simp_all add: consistent_def)
    with t tk len le same show ?thesis
      unfolding consistent_def by (simp add: s' held nth_list_update)
  next
    case (value_read x)
    with step t have s': "s' = s\<lparr>wrapper := (wrapper s)\<lparr>m_contained := inc x\<rparr>,
        threads := (threads s)[t := ?th\<lparr>stage := value_written\<rparr>]\<rparr>"
      by (auto simp: thread_step_def Let_def)
    from consistent_inside [OF inv tk] value_read
    have held: "m_mutex (wrapper s) = HeldExclusive t 0"
      by simp
    have same: "calls_made ks s' = calls_made ks s"
      "sum_list (map calls_left (threads s')) = sum_list (map calls_left (threads s))"
      by (rule calls_made_update_same [OF t, of "?th\<lparr>stage := value_written\<rparr>"];
          simp add: s')+
    from inv held value_read have "0 < calls_left ?th"
      and "\<forall>i < length ks. i \<noteq> t \<longrightarrow> stage (threads s ! i) = outside"
      and "x = (inc ^^ calls_made ks s) v"
      by (simp_all add: consistent_def)
    with t tk len le same show ?thesis
      unfolding consistent_def by (simp add: s' held nth_list_update)
  next
    case value_written
    from consistent_inside [OF inv tk] value_written
    have held: "m_mutex (wrapper s) = HeldExclusive t 0"
      by simp
    with value_written step t have s': "s' = s\<lparr>wrapper := (wrapper s)\<lparr>m_mutex := Free\<rparr>,
        threads := (threads s)[t := \<lparr>calls_left = calls_left ?th - 1, stage = outside\<rparr>]\<rparr>"
      by (auto simp: thread_step_def Let_def destroy_unique_lock)
    from inv held value_written have c: "0 < calls_left ?th"
      and others: "\<forall>i < length ks. i \<noteq> t \<longrightarrow> stage (threads s ! i) = outside"
      and val: "m_contained (wrapper s) = (inc ^^ Suc (calls_made ks s)) v"
      by (simp_all add: consistent_def)
    from c have "Suc (calls_left \<lparr>calls_left = calls_left ?th - 1, stage = outside :: 'a stage\<rparr>)
        = calls_left ?th"
      by simp
    from sum_list_map_update_pred [OF t, of calls_left, OF this]
    have pred: "Suc (sum_list (map calls_left (threads s'))) =
        sum_list (map calls_left (threads s))"
      by (simp add: s')
    with le have made: "calls_made ks s' = Suc (calls_made ks s)"
      and le': "sum_list (map calls_left (threads s')) \<le> sum_list ks"
      by (simp_all add: calls_made_def)
    from others t tk len le' val made show ?thesis
      unfolding consistent_def by (simp add: s' nth_list_update)
  qed
qed

lemma consistent_start: "consistent v inc ks (start v ks)"
proof -
  have "map calls_left (map (\<lambda>k. \<lparr>calls_left = k, stage = outside :: 'a stage\<rparr>) ks) = ks"
    by (induction ks) simp_all
  then show ?thesis
    by (simp add: consistent_def start_def basic_lock_wrapper_from_def calls_made_def)
qed

lemma consistent_run:
  assumes "run_schedule M inc sched s = Some s'" and "consistent v inc ks s"
  shows "consistent v inc ks s'"
  using assms
proof (induction sched arbitrary: s)
  case Nil
  then show ?case by simp
next
  case (Cons t ts)
  from Cons.prems(1) obtain s1 where 1: "thread_step M inc t s = Some s1"
    and 2: "run_schedule M inc ts s1 = Some s'"
    by (auto split: option.splits)
  from Cons.IH [OF 2 consistent_step [OF Cons.prems(2) 1]] show ?case .
qed

lemma all_joined_nth:
  "all_joined s \<longleftrightarrow>
     (\<forall>i < length (threads s). calls_left (threads s ! i) = 0 \<and> stage (threads s ! i) = outside)"
  by (simp add: all_joined_def list_all_length)

lemma consistent_joined:
  assumes "consistent v inc ks s" and "all_joined s"
  shows "m_contained (wrapper s) = (inc ^^ sum_list ks) v"
proof -
  from assms(1) have len: "length (threads s) = length ks"
    by (simp add: consistent_def)
  from assms(2) have out: "\<forall>i < length ks. stage (threads s ! i) = outside"
    by (simp add: all_joined_nth len)
  from assms(2) have "\<forall>th \<in> set (threads s). calls_left th = 0"
    by (simp add: all_joined_def list_all_iff)
  then have "sum_list (map calls_left (threads s)) = 0"
    by simp
  then have made: "calls_made ks s = sum_list ks"
    by (simp only: calls_made_def diff_zero)
  from assms(1) out have "m_mutex (wrapper s) = Free"
    by (cases "m_mutex (wrapper s)") (auto simp: consistent_def)
  with assms(1) made show ?thesis
    by (simp add: consistent_def)
qed

lemma consistent_progress:
  assumes "consistent v inc ks s" and "\<not> all_joined s"
  shows "\<exists>t. t < length ks \<and> thread_step M inc t s \<noteq> None"
proof (cases "m_mutex (wrapper s)")
  case Free
  from assms(1) have len: "length (threads s) = length ks"
    by (simp add: consistent_def)
  from assms(1) Free have out: "\<forall>i < length ks. stage (threads s ! i) = outside"
    by (simp add: consistent_def)
  with assms(2) obtain i where i: "i < length ks" and c: "calls_left (threads s ! i) \<noteq> 0"
    by (auto simp: all_joined_nth len)
  from i c out Free have "thread_step M inc i s \<noteq> None"
    by (cases M) (simp_all add: thread_step_def Let_def len)
  with i show ?thesis by blast
next
  case (HeldExclusive t n)
  with assms(1) have len: "length (threads s) = length ks" and n: "n = 0"
    and t: "t < length ks" and inside: "stage (threads s ! t) \<noteq> outside"
    by (auto simp: consistent_def split: stage.splits)
  from HeldExclusive n t inside have "thread_step M inc t s \<noteq> None"
    by (cases "stage (threads s ! t)")
      (simp_all add: thread_step_def Let_def len destroy_unique_lock)
  with t show ?thesis by blast
next
  case (HeldShared u us)
  with assms(1) show ?thesis
    by (simp add: consistent_def)
qed

lemma consistent_exclusive:
  assumes "consistent v inc ks s" and "i < length ks" and "j < length ks"
    and "stage (threads s ! i) \<noteq> outside" and "stage (threads s ! j) \<noteq> outside"
  shows "i = j"
  using consistent_inside [OF assms(1,2,4)] consistent_inside [OF assms(1,3,5)]
  by simp

lemma call_is_with_lock:
  assumes sel: "select_overload mutable_handle T F = Some with_lock_mutable"
    and t: "t < length (threads s)"
    and out: "stage (threads s ! t) = outside"
    and left: "calls_left (threads s ! t) \<noteq> 0"
  shows "with_lock T M mutable_handle t F (increment_call increment) (wrapper s) =
     (case run_schedule M increment [t, t, t, t] s of
        None \<Rightarrow> blocks
      | Some s' \<Rightarrow>
          finishes (Inr None) (wrapper s')
            [lock_constructed (unique_lock (mutex_traits M)), function_called,
             lock_destroyed (unique_lock (mutex_traits M))])"
proof (cases "construct_lock (unique_lock (mutex_traits M)) M t (m_mutex (wrapper s))")
  case None
  with sel t out left show ?thesis
    by (simp add: with_lock_def with_lock_unique_def run_under_eq thread_step_def Let_def)
next
  case (Some held)
  note destroy = destroy_after_construct [OF Some]
  from sel Some have "with_lock T M mutable_handle t F (increment_call increment) (wrapper s) =
      finishes (Inr None)
        \<lparr>m_mutex = m_mutex (wrapper s), m_contained = increment (m_contained (wrapper s))\<rparr>
        [lock_constructed (unique_lock (mutex_traits M)), function_called,
         lock_destroyed (unique_lock (mutex_traits M))]"
    by (simp add: with_lock_def with_lock_unique_def run_under_eq increment_call_def
        propagate_nothing)
  moreover from t out left Some destroy
  have "\<exists>s'. run_schedule M increment [t, t, t, t] s = Some s'
      \<and> wrapper s' =
        \<lparr>m_mutex = m_mutex (wrapper s), m_contained = increment (m_contained (wrapper s))\<rparr>"
    by (simp add: thread_step_def Let_def)
  ultimately show ?thesis
    by auto
qed

lemma calls_in_turn_free:
  assumes "select_overload mutable_handle T F = Some with_lock_mutable"
  shows "calls_in_turn T M F increment order \<lparr>m_mutex = Free, m_contained = x\<rparr> =
     Some \<lparr>m_mutex = Free, m_contained = (increment ^^ length order) x\<rparr>"
proof (induction order arbitrary: x)
  case Nil
  show ?case by simp
next
  case (Cons t ts)
  from with_lock_on_free [OF assms, of "\<lparr>m_mutex = Free, m_contained = x\<rparr>" M t
      "increment_call increment :: ('a, unit, unit) body"]
  have "with_lock T M mutable_handle t F (increment_call increment)
      \<lparr>m_mutex = Free, m_contained = x\<rparr> =
    (finishes (Inr None) \<lparr>m_mutex = Free, m_contained = increment x\<rparr>
      [lock_constructed (unique_lock (mutex_traits M)), function_called,
       lock_destroyed (unique_lock (mutex_traits M))] :: ('a, unit, unit) run)"
    by (simp add: increment_call_def propagate_nothing)
  with Cons.IH [of "increment x"] show ?case
    by (simp add: funpow_swap1)
qed

lemma consistent_joined_free:
  assumes "consistent v inc ks s" and "all_joined s"
  shows "m_mutex (wrapper s) = Free"
proof -
  from assms(1) have len: "length (threads s) = length ks"
    by (simp add: consistent_def)
  from assms(2) have out: "\<forall>i < length ks. stage (threads s ! i) = outside"
    by (simp add: all_joined_nth len)
  with assms(1) show ?thesis
    by (cases "m_mutex (wrapper s)") (auto simp: consistent_def)
qed

lemma funpow_increment_int: "((\<lambda>x :: int. x + 1) ^^ n) v = v + int n"
  by (induction n) simp_all

section \<open>The mutex policy table\<close>

text \<open>
  C8.  The table \<open>mutex_traits\<close> gives \<^verbatim>\<open>std::mutex\<close> the guard \<^verbatim>\<open>std::scoped_lock\<close> in
  both modes, \<^verbatim>\<open>std::shared_mutex\<close> the guard \<^verbatim>\<open>std::unique_lock\<close> (which takes the
  write lock) in exclusive mode and \<^verbatim>\<open>std::shared_lock\<close> (which takes the read lock)
  in shared mode, and \<^verbatim>\<open>std::recursive_mutex\<close> the guard \<^verbatim>\<open>std::scoped_lock\<close> in both
  modes; each entry names its own mutex as \<open>mutex_type\<close>; and the header has exactly
  three aliases, one for each of the three mutex types.
\<close>

theorem mutex_traits_table:
  "unique_lock (mutex_traits std_mutex) = std_scoped_lock
   \<and> shared_lock (mutex_traits std_mutex) = std_scoped_lock
   \<and> unique_lock (mutex_traits std_shared_mutex) = std_unique_lock
   \<and> shared_lock (mutex_traits std_shared_mutex) = std_shared_lock
   \<and> unique_lock (mutex_traits std_recursive_mutex) = std_scoped_lock
   \<and> shared_lock (mutex_traits std_recursive_mutex) = std_scoped_lock
   \<and> mutex_type (mutex_traits k) = k
   \<and> construct_lock (unique_lock (mutex_traits k)) k t m = lock k t m
   \<and> construct_lock (shared_lock (mutex_traits k)) k t m =
       (if k = std_shared_mutex then lock_shared k t m else lock k t m)
   \<and> wrapper_aliases = [lock_wrapper, shared_lock_wrapper, recursive_lock_wrapper]
   \<and> set wrapper_aliases = UNIV
   \<and> map alias_mutex_type wrapper_aliases =
       [std_mutex, std_shared_mutex, std_recursive_mutex]"
proof -
  have traits: "mutex_type (mutex_traits k) = k"
    "construct_lock (unique_lock (mutex_traits k)) k t m = lock k t m"
    "construct_lock (shared_lock (mutex_traits k)) k t m =
       (if k = std_shared_mutex then lock_shared k t m else lock k t m)"
    by (cases k; simp)+
  have "a \<in> set wrapper_aliases" for a
    by (cases a) (simp_all add: wrapper_aliases_def)
  then have "set wrapper_aliases = UNIV"
    by blast
  with traits show ?thesis
    by (simp add: wrapper_aliases_def)
qed

section \<open>Construction and unsynchronised access\<close>

text \<open>
  C7.  For every value \<open>V\<close>, the wrapper constructed from \<open>V\<close> yields exactly \<open>V\<close> when
  dereferenced, through the non-const and the const \<^verbatim>\<open>operator*\<close> and \<^verbatim>\<open>operator->\<close>
  alike, and its mutex is free: nothing was locked.
\<close>

theorem construct_then_dereference:
  "operator_star (basic_lock_wrapper_from V) = V
   \<and> operator_star_const (basic_lock_wrapper_from V) = V
   \<and> operator_arrow (basic_lock_wrapper_from V) = V
   \<and> operator_arrow_const (basic_lock_wrapper_from V) = V
   \<and> m_mutex (basic_lock_wrapper_from V) = Free"
  by (simp add: operator_star_def operator_star_const_def operator_arrow_def
      operator_arrow_const_def basic_lock_wrapper_from_def)

section \<open>Dispatch between the two overloads\<close>




section \<open>Rejected callables\<close>

text \<open>
  C6.  A callable that declares no parameter, more than one parameter, or a single
  parameter that is neither \<^verbatim>\<open>T &\<close> nor \<^verbatim>\<open>const T &\<close> (a parameter taken by value, for
  one) satisfies neither concept: no overload of \<open>with_lock\<close> is viable on any wrapper,
  the call is ill-formed, and so no guard is constructed and the value is not touched.
\<close>

theorem invalid_shape_is_rejected:
  assumes "declared_parameters F = Some ps"
    and "ps = [] \<or> 1 < length ps
         \<or> (\<exists>p. ps = [p] \<and> p \<noteq> add_lvalue_reference T
               \<and> p \<noteq> add_lvalue_reference (add_const T))"
  shows "select_overload h T F = None \<and> with_lock T M h t F a w = ill_formed"
proof -
  have "select_overload h T F = None"
  proof (cases "select_overload h T F")
    case None
    then show ?thesis .
  next
    case (Some ov)
    from accepted_declares_one_parameter [OF Some] assms show ?thesis
      by auto
  qed
  then show ?thesis
    by (simp add: with_lock_def)
qed

text \<open>
  The theorem at a lambda taking \<^verbatim>\<open>int\<close> by value, at a pointer to a function without
  parameters and at a pointer to a function with two.
\<close>

theorem invalid_shape_is_rejected_witness:
  "declared_parameters by_value_lambda_type = Some [int_type]
   \<and> int_type \<noteq> add_lvalue_reference int_type
   \<and> int_type \<noteq> add_lvalue_reference (add_const int_type)
   \<and> with_lock int_type std_mutex mutable_handle 0 by_value_lambda_type
        get_incremented_value (basic_lock_wrapper_from 42) = (ill_formed :: (int, unit, int) run)
   \<and> declared_parameters (Pointer (Function int_type [] False)) = Some []
   \<and> with_lock int_type std_mutex mutable_handle 0 (Pointer (Function int_type [] False))
        get_incremented_value (basic_lock_wrapper_from 42) = (ill_formed :: (int, unit, int) run)
   \<and> declared_parameters
        (Pointer (Function int_type [LvalueRef int_type, LvalueRef int_type] False)) =
       Some [LvalueRef int_type, LvalueRef int_type]
   \<and> with_lock int_type std_mutex mutable_handle 0
        (Pointer (Function int_type [LvalueRef int_type, LvalueRef int_type] False))
        get_incremented_value (basic_lock_wrapper_from 42) = (ill_formed :: (int, unit, int) run)"
proof -
  have d: "declared_parameters by_value_lambda_type = Some [int_type]"
    "declared_parameters (Pointer (Function int_type [] False)) = Some []"
    "declared_parameters
        (Pointer (Function int_type [LvalueRef int_type, LvalueRef int_type] False)) =
       Some [LvalueRef int_type, LvalueRef int_type]"
    by (simp_all add: by_value_lambda_type_def)
  have ne: "int_type \<noteq> add_lvalue_reference int_type"
    "int_type \<noteq> add_lvalue_reference (add_const int_type)"
    by (simp_all add: int_type_def)
  from ne have s: "[int_type] = [] \<or> 1 < length [int_type]
         \<or> (\<exists>p. [int_type] = [p] \<and> p \<noteq> add_lvalue_reference int_type
               \<and> p \<noteq> add_lvalue_reference (add_const int_type))"
    by simp
  have z: "([] :: cpp_type list) = [] \<or> 1 < length ([] :: cpp_type list)
         \<or> (\<exists>p. [] = [p] \<and> p \<noteq> add_lvalue_reference int_type
               \<and> p \<noteq> add_lvalue_reference (add_const int_type))"
    by simp
  have m: "[LvalueRef int_type, LvalueRef int_type] = []
         \<or> 1 < length [LvalueRef int_type, LvalueRef int_type]
         \<or> (\<exists>p. [LvalueRef int_type, LvalueRef int_type] = [p]
               \<and> p \<noteq> add_lvalue_reference int_type
               \<and> p \<noteq> add_lvalue_reference (add_const int_type))"
    by simp
  note r1 = invalid_shape_is_rejected [OF d(1) s, of mutable_handle std_mutex 0
      "get_incremented_value :: (int, unit, int) body" "basic_lock_wrapper_from 42"]
  note r2 = invalid_shape_is_rejected [OF d(2) z, of mutable_handle std_mutex 0
      "get_incremented_value :: (int, unit, int) body" "basic_lock_wrapper_from 42"]
  note r3 = invalid_shape_is_rejected [OF d(3) m, of mutable_handle std_mutex 0
      "get_incremented_value :: (int, unit, int) body" "basic_lock_wrapper_from 42"]
  from d ne r1 r2 r3 show ?thesis
    by simp
qed

text \<open>
  C10.  A class type whose only call operator is a template or is not const satisfies
  neither concept, so \<open>with_lock\<close> is ill-formed for it on every wrapper; and a class
  type satisfies one of the concepts only if it has exactly one call operator, which
  is not a template and is const (and not \<^verbatim>\<open>noexcept\<close>), with a single parameter.
\<close>

theorem closure_needs_const_plain_call_operator:
  "(tmpl \<or> \<not> cnst \<longrightarrow>
      \<not> unary_reference_function (Class n [CallOperator tmpl cnst nx r args]) T
      \<and> \<not> unary_const_reference_function (Class n [CallOperator tmpl cnst nx r args]) T
      \<and> select_overload h T (Class n [CallOperator tmpl cnst nx r args]) = None
      \<and> with_lock T M h t (Class n [CallOperator tmpl cnst nx r args]) a w = ill_formed)
   \<and> (unary_reference_function (Class n ops) T \<or> unary_const_reference_function (Class n ops) T
        \<longrightarrow> (\<exists>r' p. ops = [CallOperator False True False r' [p]]))"
proof (intro conjI impI)
  let ?F = "Class n [CallOperator tmpl cnst nx r args]"
  assume bad: "tmpl \<or> \<not> cnst"
  then have "call_operator_traits ?F = None"
    by (auto simp: call_operator_traits_def)
  moreover have "function_traits ?F = None"
    by simp
  ultimately show u: "\<not> unary_reference_function ?F T"
    and c: "\<not> unary_const_reference_function ?F T"
    by (simp_all add: unary_reference_function_def unary_const_reference_function_def
        single_parameter_is_def)
  then show s: "select_overload h T ?F = None"
    by (simp add: select_overload_def)
  then show "with_lock T M h t ?F a w = ill_formed"
    by (simp add: with_lock_def)
next
  assume "unary_reference_function (Class n ops) T
          \<or> unary_const_reference_function (Class n ops) T"
  then obtain r' P where "call_operator_traits (Class n ops) = Some (r', [P])"
    by (auto simp: unary_reference_function_def unary_const_reference_function_def
        single_parameter_is_iff)
  then show "\<exists>r' p. ops = [CallOperator False True False r' [p]]"
    by (auto simp: call_operator_traits_Some)
qed

text \<open>
  The theorem at a \<^verbatim>\<open>mutable\<close> lambda (which does declare the single parameter
  \<^verbatim>\<open>int &\<close>), at a generic lambda, and at the test's \<^verbatim>\<open>[]( int& value )\<close> lambda.
\<close>

theorem closure_needs_const_plain_call_operator_witness:
  "declared_parameters mutable_lambda_type = Some [LvalueRef int_type]
   \<and> with_lock int_type std_mutex mutable_handle 0 mutable_lambda_type increment_value
        (basic_lock_wrapper_from 42) = (ill_formed :: (int, unit, unit) run)
   \<and> with_lock int_type std_mutex mutable_handle 0 generic_lambda_type increment_value
        (basic_lock_wrapper_from 42) = (ill_formed :: (int, unit, unit) run)
   \<and> unary_reference_function reference_lambda_type int_type
   \<and> (\<exists>r' p. reference_lambda_type = Class ''lambda(int&)'' [CallOperator False True False r' [p]])"
proof -
  note m = closure_needs_const_plain_call_operator [where tmpl = False and cnst = False
      and n = "''lambda(int&) mutable''" and nx = False and r = void_type
      and args = "[LvalueRef int_type]" and T = int_type and h = mutable_handle
      and M = std_mutex and t = 0 and a = "increment_value :: (int, unit, unit) body"
      and w = "basic_lock_wrapper_from 42" and ops = "[]"]
  note g = closure_needs_const_plain_call_operator [where tmpl = True and cnst = True
      and n = "''lambda(auto&)''" and nx = False and r = void_type
      and args = "[LvalueRef (TypeParameter ''auto'')]" and T = int_type
      and h = mutable_handle and M = std_mutex and t = 0
      and a = "increment_value :: (int, unit, unit) body"
      and w = "basic_lock_wrapper_from 42" and ops = "[]"]
  note c = closure_needs_const_plain_call_operator [where tmpl = False and cnst = True
      and n = "''lambda(int&)''" and nx = False and r = void_type
      and args = "[LvalueRef int_type]" and T = int_type and h = mutable_handle
      and M = std_mutex and t = 0 and a = "increment_value :: (int, unit, unit) body"
      and w = "basic_lock_wrapper_from 42"
      and ops = "[CallOperator False True False void_type [LvalueRef int_type]]"]
  have u: "unary_reference_function reference_lambda_type int_type"
    by (simp add: unary_reference_function_def single_parameter_is_def
        call_operator_traits_def reference_lambda_type_def int_type_def)
  from m g c u show ?thesis
    by (simp add: mutable_lambda_type_def generic_lambda_type_def reference_lambda_type_def)
qed

section \<open>Default construction\<close>

text \<open>
  C5, as the header has it.  The default constructor leaves the mutex free and
  default-initialises the contained value: in a wrapper declared \<^verbatim>\<open>W w;\<close> on the
  storage as it is, in a wrapper that is itself value-initialised (\<^verbatim>\<open>W w{}\<close>, \<^verbatim>\<open>W()\<close>)
  on zeroed storage.  The contained value is the value-initialised \<open>T\<close> when the
  wrapper is value-initialised and the default constructor of \<open>T\<close> is not
  user-provided, and whenever default-initialising \<open>T\<close> gives the same value whatever
  its storage held.
\<close>

theorem default_constructed_value:
  "m_mutex (basic_lock_wrapper_default ini indeterminate init) = Free
   \<and> m_contained (basic_lock_wrapper_default ini indeterminate no_initializer) =
       default_initialize ini indeterminate
   \<and> m_contained (basic_lock_wrapper_default ini indeterminate empty_initializer) =
       default_initialize ini (zero_value ini)
   \<and> (\<not> user_provided ini \<longrightarrow>
        m_contained (basic_lock_wrapper_default ini indeterminate empty_initializer) =
          value_initialize ini storage)
   \<and> ((\<forall>x y. default_constructor ini x = default_constructor ini y) \<longrightarrow>
        m_contained (basic_lock_wrapper_default ini indeterminate init) =
          value_initialize ini storage)"
proof (intro conjI impI)
  show "m_mutex (basic_lock_wrapper_default ini indeterminate init) = Free"
    and "m_contained (basic_lock_wrapper_default ini indeterminate no_initializer) =
       default_initialize ini indeterminate"
    and "m_contained (basic_lock_wrapper_default ini indeterminate empty_initializer) =
       default_initialize ini (zero_value ini)"
    by (simp_all add: basic_lock_wrapper_default_def)
  show "m_contained (basic_lock_wrapper_default ini indeterminate empty_initializer) =
      value_initialize ini storage" if "\<not> user_provided ini"
    using that by (simp add: basic_lock_wrapper_default_def value_initialize_def)
  show "m_contained (basic_lock_wrapper_default ini indeterminate init) =
      value_initialize ini storage"
    if same: "\<forall>x y. default_constructor ini x = default_constructor ini y"
  proof -
    from same have "default_initialize ini x = default_initialize ini y" for x y
      by (simp add: default_initialize_def)
    then show ?thesis
      by (simp add: basic_lock_wrapper_default_def value_initialize_def)
  qed
qed

text \<open>
  The theorem at \<^verbatim>\<open>W w{}\<close> for \<^verbatim>\<open>int\<close> and for the struct with an \<^verbatim>\<open>int\<close> member, and at
  \<^verbatim>\<open>W w;\<close> for the string class; and at \<^verbatim>\<open>W w;\<close> for the struct on storage holding 7,
  where the member \<open>x\<close> is not the value-initialised one.
\<close>

theorem default_constructed_value_witness:
  "\<not> user_provided int_initialization
   \<and> m_contained (basic_lock_wrapper_default int_initialization 7 empty_initializer) = 0
   \<and> value_initialize int_initialization 7 = 0
   \<and> \<not> user_provided struct_initialization
   \<and> m_contained (basic_lock_wrapper_default struct_initialization (7, ''abc'') empty_initializer)
       = (0, [])
   \<and> value_initialize struct_initialization (7, ''abc'') = (0, [])
   \<and> m_contained (basic_lock_wrapper_default struct_initialization (7, ''abc'') no_initializer)
       = (7, [])
   \<and> (\<forall>x y. default_constructor string_initialization x = default_constructor string_initialization y)
   \<and> m_contained (basic_lock_wrapper_default string_initialization ''abc'' no_initializer) = []
   \<and> value_initialize string_initialization ''abc'' = []"
proof -
  have u: "\<not> user_provided int_initialization" "\<not> user_provided struct_initialization"
    by (simp_all add: int_initialization_def struct_initialization_def)
  have c: "\<forall>x y. default_constructor string_initialization x =
      default_constructor string_initialization y"
    by (simp add: string_initialization_def)
  note i = default_constructed_value [where ini = int_initialization and indeterminate = 7
      and init = empty_initializer and storage = 7]
  note q = default_constructed_value [where ini = struct_initialization
      and indeterminate = "(7, ''abc'')" and init = no_initializer and storage = "(7, ''abc'')"]
  note z = default_constructed_value [where ini = string_initialization
      and indeterminate = "''abc''" and init = no_initializer and storage = "''abc''"]
  from i q z u c show ?thesis
    by (simp add: value_initialize_def default_initialize_def int_initialization_def
        struct_initialization_def string_initialization_def)
qed

text \<open>
  C5 as the specification words it (the contained value is value-initialised, zero for
  an arithmetic \<open>T\<close>) fails for \<^verbatim>\<open>zdm::lock_wrapper<int> w;\<close> on storage holding 7.
\<close>

theorem default_constructed_value_counterexample:
  "m_contained (basic_lock_wrapper_default int_initialization 7 no_initializer) = 7
   \<and> value_initialize int_initialization 7 = 0
   \<and> m_contained (basic_lock_wrapper_default int_initialization 7 no_initializer)
       \<noteq> value_initialize int_initialization 7"
  by (simp add: basic_lock_wrapper_default_def value_initialize_def default_initialize_def
      int_initialization_def)

section \<open>Running under the lock\<close>

text \<open>
  C4.  When the non-const overload is chosen, the wrapper's mutex is free and the
  callable returns no value exactly if its return type is \<^verbatim>\<open>void\<close>: \<open>with_lock\<close> comes
  back with what the callable returned (nothing for \<^verbatim>\<open>void\<close>) or threw, having run
  under \<open>unique_lock\<close>; the wrapper is the same but for \<open>m_contained\<close>, which is the
  value the callable left, and \<^verbatim>\<open>operator*\<close> reads that value afterwards.
\<close>

theorem exclusive_operation_applies_in_place:
  assumes "select_overload h T F = Some with_lock_mutable"
    and "m_mutex w = Free"
    and "agrees_on_void F (fst (invoke a (m_contained w)))"
  shows "with_lock T M h t F a w =
           finishes (fst (invoke a (m_contained w)))
             (w\<lparr>m_contained := snd (invoke a (m_contained w))\<rparr>)
             [lock_constructed (unique_lock (mutex_traits M)), function_called,
              lock_destroyed (unique_lock (mutex_traits M))]
         \<and> operator_star (w\<lparr>m_contained := snd (invoke a (m_contained w))\<rparr>) =
             snd (invoke a (m_contained w))
         \<and> m_mutex (w\<lparr>m_contained := snd (invoke a (m_contained w))\<rparr>) = Free"
  using with_lock_on_free [OF assms(1,2), of M t a] propagate_agrees [OF assms(3)] assms(2)
  by (simp add: operator_star_def)

text \<open>
  The test \<^verbatim>\<open>reference lambda\<close>: incrementing a \<open>lock_wrapper<int>\<close> that holds 42 leaves
  43, read back by \<^verbatim>\<open>operator*\<close>.
\<close>

theorem exclusive_operation_applies_in_place_witness:
  "select_overload mutable_handle int_type reference_lambda_type = Some with_lock_mutable
   \<and> m_mutex (basic_lock_wrapper_from (42 :: int)) = Free
   \<and> with_lock int_type std_mutex mutable_handle 0 reference_lambda_type increment_value
        (basic_lock_wrapper_from 42) =
       (finishes (Inr None) \<lparr>m_mutex = Free, m_contained = 43\<rparr>
          [lock_constructed std_scoped_lock, function_called, lock_destroyed std_scoped_lock]
        :: (int, unit, unit) run)
   \<and> operator_star \<lparr>m_mutex = Free, m_contained = 43 :: int\<rparr> = 43"
proof -
  have s: "select_overload mutable_handle int_type reference_lambda_type = Some with_lock_mutable"
    by (simp add: select_overload_def unary_reference_function_def single_parameter_is_def
        call_operator_traits_def reference_lambda_type_def int_type_def)
  have f: "m_mutex (basic_lock_wrapper_from (42 :: int)) = Free"
    by (simp add: basic_lock_wrapper_from_def)
  have v: "agrees_on_void reference_lambda_type
      (fst (invoke (increment_value :: (int, unit, unit) body)
        (m_contained (basic_lock_wrapper_from 42))))"
    by (simp add: increment_value_def returns_void_def call_operator_traits_def
        reference_lambda_type_def is_void_def void_type_def)
  from exclusive_operation_applies_in_place [OF s f v, of std_mutex 0] s f show ?thesis
    by (simp add: increment_value_def basic_lock_wrapper_from_def)
qed

text \<open>
  C3.  When an overload is chosen, the wrapper's mutex is free and the callable only
  reads (its return type agreeing with what it returns): \<open>with_lock\<close> comes back with
  the callable's result and the wrapper is exactly as before, value and mutex.  For a
  cv-unqualified \<open>T\<close> and a callable satisfying \<open>unary_const_reference_function\<close> the
  overload chosen is the const one, which takes \<open>shared_lock\<close>.
\<close>

theorem read_only_operation_leaves_value:
  assumes "select_overload h T F = Some ov"
    and "m_mutex w = Free"
    and "agrees_on_void F (g (m_contained w))"
  shows "with_lock T M h t F (reads g) w =
           finishes (g (m_contained w)) w
             [lock_constructed (guard_of ov M), function_called, lock_destroyed (guard_of ov M)]
         \<and> (cv_unqualified_object T \<and> unary_const_reference_function F T
              \<longrightarrow> ov = with_lock_const)"
proof
  from with_lock_on_free [OF assms(1,2), of M t "reads g"] propagate_agrees [OF assms(3)]
  show "with_lock T M h t F (reads g) w =
           finishes (g (m_contained w)) w
             [lock_constructed (guard_of ov M), function_called, lock_destroyed (guard_of ov M)]"
    by simp
next
  show "cv_unqualified_object T \<and> unary_const_reference_function F T \<longrightarrow> ov = with_lock_const"
  proof
    assume a: "cv_unqualified_object T \<and> unary_const_reference_function F T"
    then have "\<not> unary_reference_function F T"
      using cv_unqualified_object_distinct [of T]
      by (auto simp: unary_reference_function_def unary_const_reference_function_def
          single_parameter_is_iff call_operator_traits_Some)
    with assms(1) show "ov = with_lock_const"
      by (auto simp: select_overload_def split: if_splits)
  qed
qed

text \<open>
  The test \<^verbatim>\<open>const reference lambda\<close>: \<^verbatim>\<open>value + 1\<close> on a \<open>lock_wrapper<int>\<close> that holds
  42 returns 43 and the wrapper still holds 42.
\<close>

theorem read_only_operation_leaves_value_witness:
  "select_overload mutable_handle int_type const_reference_lambda_type = Some with_lock_const
   \<and> m_mutex (basic_lock_wrapper_from (42 :: int)) = Free
   \<and> with_lock int_type std_mutex mutable_handle 0 const_reference_lambda_type
        get_incremented_value (basic_lock_wrapper_from 42) =
       (finishes (Inr (Some 43)) (basic_lock_wrapper_from 42)
          [lock_constructed std_scoped_lock, function_called, lock_destroyed std_scoped_lock]
        :: (int, unit, int) run)
   \<and> operator_star (basic_lock_wrapper_from (42 :: int)) = 42"
proof -
  have s: "select_overload mutable_handle int_type const_reference_lambda_type =
      Some with_lock_const"
    by (simp add: select_overload_def unary_reference_function_def
        unary_const_reference_function_def single_parameter_is_def
        call_operator_traits_def const_reference_lambda_type_def int_type_def)
  have f: "m_mutex (basic_lock_wrapper_from (42 :: int)) = Free"
    by (simp add: basic_lock_wrapper_from_def)
  have v: "agrees_on_void const_reference_lambda_type
      ((\<lambda>v. Inr (Some (v + 1)) :: unit + int option) (m_contained (basic_lock_wrapper_from 42)))"
    by (simp add: returns_void_def call_operator_traits_def
        const_reference_lambda_type_def is_void_def int_type_def)
  from read_only_operation_leaves_value [where g = "\<lambda>v. Inr (Some (v + 1)) :: unit + int option"
      and w = "basic_lock_wrapper_from 42" and M = std_mutex and t = 0, OF s f v] s f
  show ?thesis
    by (simp add: get_incremented_value_def basic_lock_wrapper_from_def operator_star_def)
qed

text \<open>
  C2.  When an overload is chosen, the wrapper's mutex is free and the callable throws
  \<open>e\<close>: the guard is destroyed after the call and before \<open>with_lock\<close> is left, the
  caller receives the same \<open>e\<close>, the mutex is free again, and any further \<open>with_lock\<close>
  call that compiles, by any thread, comes back instead of blocking.
\<close>

theorem error_releases_lock_and_propagates:
  assumes "select_overload h T F = Some ov"
    and "m_mutex w = Free"
    and "fst (invoke a (m_contained w)) = Inl e"
  shows "with_lock T M h t F a w =
           finishes (Inl e) (w\<lparr>m_contained := snd (invoke a (m_contained w))\<rparr>)
             [lock_constructed (guard_of ov M), function_called, lock_destroyed (guard_of ov M)]
         \<and> m_mutex (w\<lparr>m_contained := snd (invoke a (m_contained w))\<rparr>) = Free
         \<and> (select_overload h' T F' = Some ov' \<longrightarrow>
              comes_back
                (with_lock T M h' t' F' a' (w\<lparr>m_contained := snd (invoke a (m_contained w))\<rparr>)))"
proof (intro conjI impI)
  from with_lock_on_free [OF assms(1,2), of M t a] assms(3)
  show "with_lock T M h t F a w =
           finishes (Inl e) (w\<lparr>m_contained := snd (invoke a (m_contained w))\<rparr>)
             [lock_constructed (guard_of ov M), function_called, lock_destroyed (guard_of ov M)]"
    by (simp add: propagate_error)
  show free: "m_mutex (w\<lparr>m_contained := snd (invoke a (m_contained w))\<rparr>) = Free"
    using assms(2) by simp
  assume "select_overload h' T F' = Some ov'"
  from with_lock_on_free [OF this free, of M t' a']
  show "comes_back
      (with_lock T M h' t' F' a' (w\<lparr>m_contained := snd (invoke a (m_contained w))\<rparr>))"
    by simp
qed

text \<open>
  A callable that increments and then throws, on a \<open>lock_wrapper<int>\<close> holding 42; the
  next call increments again.
\<close>

theorem error_releases_lock_and_propagates_witness:
  "select_overload mutable_handle int_type reference_lambda_type = Some with_lock_mutable
   \<and> m_mutex (basic_lock_wrapper_from (42 :: int)) = Free
   \<and> fst (invoke (increment_then_throw :: (int, string, unit) body)
         (m_contained (basic_lock_wrapper_from 42))) = Inl ''thrown''
   \<and> with_lock int_type std_mutex mutable_handle 0 reference_lambda_type
        increment_then_throw (basic_lock_wrapper_from 42) =
       (finishes (Inl ''thrown'') \<lparr>m_mutex = Free, m_contained = 43\<rparr>
          [lock_constructed std_scoped_lock, function_called, lock_destroyed std_scoped_lock]
        :: (int, string, unit) run)
   \<and> comes_back
        (with_lock int_type std_mutex mutable_handle 1 reference_lambda_type
           (writes (\<lambda>v. (Inr None, v + 1)))
           \<lparr>m_mutex = Free, m_contained = 43\<rparr> :: (int, string, unit) run)"
proof -
  have s: "select_overload mutable_handle int_type reference_lambda_type = Some with_lock_mutable"
    by (simp add: select_overload_def unary_reference_function_def single_parameter_is_def
        call_operator_traits_def reference_lambda_type_def int_type_def)
  have f: "m_mutex (basic_lock_wrapper_from (42 :: int)) = Free"
    by (simp add: basic_lock_wrapper_from_def)
  have e: "fst (invoke (increment_then_throw :: (int, string, unit) body)
         (m_contained (basic_lock_wrapper_from 42))) = Inl ''thrown''"
    by (simp add: increment_then_throw_def)
  from error_releases_lock_and_propagates [OF s f e, where M = std_mutex and t = 0
      and h' = mutable_handle and F' = reference_lambda_type and ov' = with_lock_mutable
      and t' = 1 and a' = "writes (\<lambda>v. (Inr None, v + 1))"] s f e
  show ?thesis
    by (simp add: increment_then_throw_def basic_lock_wrapper_from_def)
qed

section \<open>Concurrent increments\<close>

text \<open>
  C9.  Threads that each make a number of \<open>with_lock\<close> calls incrementing the value,
  on one non-const wrapper over any of the three mutex types, started from the value
  \<open>v\<close>, with a callable for which the non-const overload is chosen: in every state \<open>s\<close>
  an execution reaches,
  \<^item> if all threads have finished, the value is \<open>v\<close> incremented once for every call
    (\<open>sum_list ks\<close> times: \<open>N\<close> times for \<open>N\<close> threads making one call each, and 100 times
    for the test's four threads making 25 calls each);
  \<^item> if all threads have finished, the wrapper is the one that the same number of
    \<open>with_lock\<close> calls, made one after another in any order, leave;
  \<^item> if not all threads have finished, some thread can take a step, so the threads
    never deadlock;
  \<^item> every step lowers \<open>work_left\<close>, so every execution ends and the threads can be
    joined;
  \<^item> at most one thread is inside a call;
  \<^item> the four steps of the next call of a thread, taken from \<open>s\<close> without another
    thread in between, are the call \<open>with_lock\<close> on the wrapper of \<open>s\<close>: they cannot
    start when \<open>with_lock\<close> blocks, and otherwise leave the wrapper \<open>with_lock\<close> leaves.
\<close>

theorem concurrent_increments_are_not_lost:
  assumes "run_schedule M increment sched (start v ks) = Some s"
    and "select_overload mutable_handle T F = Some with_lock_mutable"
  shows "(all_joined s \<longrightarrow> m_contained (wrapper s) = (increment ^^ sum_list ks) v)
       \<and> (all_joined s \<and> length order = sum_list ks \<longrightarrow>
            calls_in_turn T M F increment order (basic_lock_wrapper_from v) = Some (wrapper s))
       \<and> (\<not> all_joined s \<longrightarrow> (\<exists>t. t < length ks \<and> thread_step M increment t s \<noteq> None))
       \<and> (thread_step M increment t s = Some s' \<longrightarrow> work_left s' < work_left s)
       \<and> (i < length ks \<and> j < length ks \<and> stage (threads s ! i) \<noteq> outside
            \<and> stage (threads s ! j) \<noteq> outside \<longrightarrow> i = j)
       \<and> (u < length ks \<and> stage (threads s ! u) = outside \<and> calls_left (threads s ! u) \<noteq> 0
            \<longrightarrow> with_lock T M mutable_handle u F
                  (increment_call increment :: ('a, 'e, 'r) body) (wrapper s) =
                  (case run_schedule M increment [u, u, u, u] s of
                     None \<Rightarrow> blocks
                   | Some s4 \<Rightarrow>
                       finishes (Inr None) (wrapper s4)
                         [lock_constructed (unique_lock (mutex_traits M)), function_called,
                          lock_destroyed (unique_lock (mutex_traits M))]))"
proof -
  from consistent_run [OF assms(1) consistent_start]
  have inv: "consistent v increment ks s" .
  then have len: "length (threads s) = length ks"
    by (simp add: consistent_def)
  have turn: "calls_in_turn T M F increment order (basic_lock_wrapper_from v) = Some (wrapper s)"
    if "all_joined s" and "length order = sum_list ks"
  proof -
    from consistent_joined [OF inv that(1)] consistent_joined_free [OF inv that(1)]
    have "wrapper s = \<lparr>m_mutex = Free, m_contained = (increment ^^ sum_list ks) v\<rparr>"
      by (cases "wrapper s") simp
    with calls_in_turn_free [OF assms(2), of M increment order v] that(2) show ?thesis
      by (simp add: basic_lock_wrapper_from_def)
  qed
  have link: "with_lock T M mutable_handle u F (increment_call increment) (wrapper s) =
       (case run_schedule M increment [u, u, u, u] s of
          None \<Rightarrow> blocks
        | Some s4 \<Rightarrow>
            finishes (Inr None) (wrapper s4)
              [lock_constructed (unique_lock (mutex_traits M)), function_called,
               lock_destroyed (unique_lock (mutex_traits M))])"
    if "u < length ks" and "stage (threads s ! u) = outside"
      and "calls_left (threads s ! u) \<noteq> 0"
    using call_is_with_lock [OF assms(2), of u s M increment] that len by simp
  show ?thesis
    using consistent_joined [OF inv] turn consistent_progress [OF inv, of M]
      thread_step_work_left [of M increment t s s'] consistent_exclusive [OF inv, of i j] link
    by blast
qed

text \<open>
  The test: four threads, 25 calls each, on a \<open>lock_wrapper<int>\<close> holding 0, with the
  test's \<^verbatim>\<open>[]( int& value )\<close> lambda.  The execution \<open>four_threads_schedule\<close> ends with
  all threads finished and the value 100, as 100 calls in turn do; and the first call
  of thread 2 from the start is \<open>with_lock\<close> on the wrapper holding 0.
\<close>

theorem concurrent_increments_are_not_lost_witness:
  "run_schedule std_mutex (\<lambda>x. x + 1) four_threads_schedule (start (0 :: int) [25, 25, 25, 25]) =
     Some \<lparr>wrapper = \<lparr>m_mutex = Free, m_contained = 100\<rparr>,
           threads = replicate 4 \<lparr>calls_left = 0, stage = outside\<rparr>\<rparr>
   \<and> select_overload mutable_handle int_type reference_lambda_type = Some with_lock_mutable
   \<and> all_joined \<lparr>wrapper = \<lparr>m_mutex = Free, m_contained = 100 :: int\<rparr>,
           threads = replicate 4 \<lparr>calls_left = 0, stage = outside\<rparr>\<rparr>
   \<and> ((\<lambda>x :: int. x + 1) ^^ sum_list [25, 25, 25, 25]) 0 = 100
   \<and> calls_in_turn int_type std_mutex reference_lambda_type (\<lambda>x. x + 1) (replicate 100 0)
        (basic_lock_wrapper_from (0 :: int)) = Some \<lparr>m_mutex = Free, m_contained = 100\<rparr>
   \<and> with_lock int_type std_mutex mutable_handle 2 reference_lambda_type
        (increment_call (\<lambda>x. x + 1)) (basic_lock_wrapper_from (0 :: int)) =
       (finishes (Inr None) \<lparr>m_mutex = Free, m_contained = 1\<rparr>
          [lock_constructed std_scoped_lock, function_called, lock_destroyed std_scoped_lock]
        :: (int, unit, unit) run)"
proof -
  have run: "run_schedule std_mutex (\<lambda>x. x + 1) four_threads_schedule
      (start (0 :: int) [25, 25, 25, 25]) =
     Some \<lparr>wrapper = \<lparr>m_mutex = Free, m_contained = 100\<rparr>,
           threads = replicate 4 \<lparr>calls_left = 0, stage = outside\<rparr>\<rparr>"
    by code_simp
  have none: "run_schedule std_mutex (\<lambda>x. x + 1) [] (start (0 :: int) [25, 25, 25, 25]) =
      Some (start 0 [25, 25, 25, 25])"
    by simp
  have call: "run_schedule std_mutex (\<lambda>x. x + 1) [2, 2, 2, 2] (start (0 :: int) [25, 25, 25, 25]) =
      Some \<lparr>wrapper = \<lparr>m_mutex = Free, m_contained = 1\<rparr>,
            threads = [\<lparr>calls_left = 25, stage = outside\<rparr>, \<lparr>calls_left = 25, stage = outside\<rparr>,
              \<lparr>calls_left = 24, stage = outside\<rparr>, \<lparr>calls_left = 25, stage = outside\<rparr>]\<rparr>"
    by code_simp
  have sel: "select_overload mutable_handle int_type reference_lambda_type =
      Some with_lock_mutable"
    by (simp add: select_overload_def unary_reference_function_def single_parameter_is_def
        call_operator_traits_def reference_lambda_type_def int_type_def)
  have joined: "all_joined \<lparr>wrapper = \<lparr>m_mutex = Free, m_contained = 100 :: int\<rparr>,
           threads = replicate 4 \<lparr>calls_left = 0, stage = outside\<rparr>\<rparr>"
    by (simp add: all_joined_def list_all_iff)
  note final = concurrent_increments_are_not_lost [OF run sel,
      where order = "replicate 100 0" and u = 0]
  note first = concurrent_increments_are_not_lost [OF none sel,
      where order = "[]" and u = 2,
      where ?'e = unit and ?'r = unit]
  from final joined have
    "((\<lambda>x :: int. x + 1) ^^ sum_list [25, 25, 25, 25]) 0 = 100"
    "calls_in_turn int_type std_mutex reference_lambda_type (\<lambda>x. x + 1) (replicate 100 0)
        (basic_lock_wrapper_from (0 :: int)) = Some \<lparr>m_mutex = Free, m_contained = 100\<rparr>"
    by simp_all
  moreover from first call have
    "with_lock int_type std_mutex mutable_handle 2 reference_lambda_type
        (increment_call (\<lambda>x. x + 1)) (basic_lock_wrapper_from (0 :: int)) =
       (finishes (Inr None) \<lparr>m_mutex = Free, m_contained = 1\<rparr>
          [lock_constructed std_scoped_lock, function_called, lock_destroyed std_scoped_lock]
        :: (int, unit, unit) run)"
    by (simp add: start_def)
  ultimately show ?thesis
    using run sel joined by simp
qed

end
